theory Spec2Isabelle
  imports Main "HOL-Library.Word"
begin

section \<open>model.py: identifiers\<close>

text \<open>
  Python exceptions are values of \<open>error\<close>; a function that can raise returns
  \<open>error + 'a\<close> with \<open>Inl\<close> for the exception.
\<close>

datatype error =
    ValueError string
  | KeyError string
  | UnwrapError
  | InvalidStateError
  | NoOpenLap

text \<open>
  The bilingual \<open>MultiText\<close> messages are kept as tags: one constructor per message
  the source builds, with the values the source interpolates into it.
\<close>

datatype MultiText =
    NameNotAllowed
  | CannotMakeNewEvent
  | TaskNotFound string
  | EventStarted string string "string option"
  | NoRunningEvent
  | NotFound
  | AutoDeleted

text \<open>The \<open>Result\<close> type of the \<open>result\<close> package.\<close>

datatype 'a Result = Ok 'a | Err MultiText

fun is_err :: "'a Result \<Rightarrow> bool" where
  "is_err (Err m) = True"
| "is_err (Ok v) = False"

fun err :: "'a Result \<Rightarrow> MultiText option" where
  "err (Err m) = Some m"
| "err (Ok v) = None"

fun unwrap :: "'a Result \<Rightarrow> error + 'a" where
  "unwrap (Ok v) = Inr v"
| "unwrap (Err m) = Inl UnwrapError"

definition OK :: "string Result" where
  "OK = Ok ''OK''"

definition digits :: string where
  "digits = ''0123456789abcdefghijklmnopqrstuvwxyz''"

text \<open>
  The loop of \<open>base_repr\<close>: \<open>while num: res.append(digits[num % base]); num //= base\<close>.
  \<open>res\<close> is a list of one-character strings. The source reaches the loop with
  \<open>num = abs(number)\<close> and \<open>2 \<le> base \<le> 36\<close> only; outside of that the model
  stops at once, which is what makes it total.
\<close>

function base_repr_loop :: "int \<Rightarrow> int \<Rightarrow> string list \<Rightarrow> string list" where
  "base_repr_loop num base res =
     (if num = 0 then res
      else if num < 0 \<or> base < 2 then res
      else base_repr_loop (num div base) base (res @ [[digits ! nat (num mod base)]]))"
  by pat_completeness auto
termination
proof (relation "measure (\<lambda>(num, base, res). nat num)")
  show "wf (measure (\<lambda>(num, base, res). nat num))" by simp
next
  fix num base :: int and res :: "string list"
  assume "num \<noteq> 0" and "\<not> (num < 0 \<or> base < 2)"
  then have pos: "0 < num" and b: "2 \<le> base" by auto
  have "num div base < num"
    using pos b by (simp add: int_div_less_self)
  moreover have "0 \<le> num div base"
    using pos b by (simp add: pos_imp_zdiv_nonneg_iff)
  ultimately show "((num div base, base, res @ [[digits ! nat (num mod base)]]), (num, base, res))
        \<in> measure (\<lambda>(num, base, res). nat num)"
    using pos by simp
qed

declare base_repr_loop.simps [simp del]

definition base_repr :: "int \<Rightarrow> int \<Rightarrow> int \<Rightarrow> error + string" where
  "base_repr number base padding =
     (if base > int (length digits)
      then Inl (ValueError ''Bases greater than 36 not handled in base_repr.'')
      else if base < 2
      then Inl (ValueError ''Bases less than 2 not handled in base_repr.'')
      else
        let num = abs number;
            res = base_repr_loop num base [];
            res = (if padding \<noteq> 0 then res @ [replicate (nat padding) CHR ''0''] else res);
            res = (if number < 0 then res @ [''-''] else res)
        in Inr (concat (rev (if res = [] then [''0''] else res))))"

text \<open>
  Python's \<open>int(s, base)\<close> on a string of the characters of \<open>digits\<close>, which is all
  that \<open>rand_id\<close> passes to it; any other character is a ValueError.
\<close>

fun digit_index :: "char \<Rightarrow> string \<Rightarrow> nat option" where
  "digit_index c [] = None"
| "digit_index c (d # ds) =
     (if c = d then Some 0 else map_option Suc (digit_index c ds))"

fun int_of_str_acc :: "int \<Rightarrow> string \<Rightarrow> int \<Rightarrow> error + int" where
  "int_of_str_acc acc [] base = Inr acc"
| "int_of_str_acc acc (c # cs) base =
     (case digit_index c digits of
        None \<Rightarrow> Inl (ValueError ''invalid literal for int()'')
      | Some v \<Rightarrow>
          if int v < base then int_of_str_acc (acc * base + int v) cs base
          else Inl (ValueError ''invalid literal for int()''))"

definition int_of_str :: "string \<Rightarrow> int \<Rightarrow> error + int" where
  "int_of_str s base =
     (if s = [] then Inl (ValueError ''invalid literal for int()'')
      else int_of_str_acc 0 s base)"

text \<open>
  \<open>randrange(a, b)\<close> may return any integer \<open>n\<close> with \<open>a \<le> n < b\<close>; the number
  drawn is an argument of the model.
\<close>

definition randrange :: "int \<Rightarrow> int \<Rightarrow> int \<Rightarrow> bool" where
  "randrange a b n \<longleftrightarrow> a \<le> n \<and> n < b"

definition rand_id_range :: "int \<Rightarrow> bool" where
  "rand_id_range n_rand =
     (case (int_of_str ''1000'' 36, int_of_str ''zzzz'' 36) of
        (Inr n_min, Inr n_max) \<Rightarrow> randrange n_min (n_max + 1) n_rand
      | _ \<Rightarrow> False)"

definition rand_id :: "int \<Rightarrow> error + string" where
  "rand_id n_rand = base_repr n_rand 36 0"

text \<open>\<open>now()\<close> reads the clock; the timestamp read is an argument of the model.\<close>

definition date_id :: "int \<Rightarrow> error + string" where
  "date_id now = base_repr now 36 0"

section \<open>model.py: configuration, tasks and events\<close>

record Config =
  split_min :: int
  pause_min :: int
  pause_max :: int

definition default_cfg :: Config where
  "default_cfg = \<lparr>split_min = 5, pause_min = 5, pause_max = 60\<rparr>"

text \<open>
  \<open>pack\<close> and \<open>unpack\<close> hand their argument to the msgpack library
  (\<open>msgpack.packb(obj)\<close>, \<open>msgpack.unpackb(data, use_list=False)\<close>). The library is
  not part of the repository, so its two functions are an argument of the model; each may
  raise.
\<close>

type_synonym bytes = "8 word list"

type_synonym Lap = "string \<times> int \<times> int \<times> int"

record msgpack =
  packb :: "Lap list \<Rightarrow> error + bytes"
  unpackb :: "bytes \<Rightarrow> error + Lap list"

definition pack :: "msgpack \<Rightarrow> Lap list \<Rightarrow> error + bytes" where
  "pack mp obj = packb mp obj"

definition unpack :: "msgpack \<Rightarrow> bytes \<Rightarrow> error + Lap list" where
  "unpack mp data = unpackb mp data"

datatype EventStatus = Running | Pausing | Stopped

fun EventStatus_name :: "EventStatus \<Rightarrow> string" where
  "EventStatus_name Running = ''Running''"
| "EventStatus_name Pausing = ''Pausing''"
| "EventStatus_name Stopped = ''Stopped''"

text \<open>\<open>EventStatus[status]\<close>: the member of that name, a KeyError when there is none.\<close>

definition EventStatus_getitem :: "string \<Rightarrow> error + EventStatus" where
  "EventStatus_getitem s =
     (if s = ''Running'' then Inr Running
      else if s = ''Pausing'' then Inr Pausing
      else if s = ''Stopped'' then Inr Stopped
      else Inl (KeyError s))"

datatype LapName = Split | Pause

fun LapName_name :: "LapName \<Rightarrow> string" where
  "LapName_name Split = ''Split''"
| "LapName_name Pause = ''Pause''"

text \<open>
  \<open>NameForbidPattern\<close> is the regular expression \<open>[^_0-9a-zA-Z\-]\<close>: one character
  outside of the class. \<open>search\<close> returns the first match, or None.
\<close>

definition name_char :: "char \<Rightarrow> bool" where
  "name_char c \<longleftrightarrow>
     c = CHR ''_''
     \<or> c \<in> set ''0123456789''
     \<or> c \<in> set ''abcdefghijklmnopqrstuvwxyz''
     \<or> c \<in> set ''ABCDEFGHIJKLMNOPQRSTUVWXYZ''
     \<or> c = CHR ''-''"

definition NameForbidPattern_search :: "string \<Rightarrow> char option" where
  "NameForbidPattern_search name = find (\<lambda>c. \<not> name_char c) name"

definition check_name :: "string \<Rightarrow> string Result" where
  "check_name name =
     (if NameForbidPattern_search name = None then OK else Err NameNotAllowed)"

record Task =
  Task_id :: string
  Task_name :: string
  Task_alias :: string

text \<open>
  \<open>new_task(d)\<close>: the dict maps the keys \<open>id\<close>, \<open>name\<close> and \<open>alias\<close> to strings.
  \<open>d.get("id", rand_id())\<close> calls \<open>rand_id\<close> whether the key is there or not, and
  before \<open>d["name"]\<close> is read, which raises a KeyError when the key is missing.
\<close>

definition new_task :: "(string \<rightharpoonup> string) \<Rightarrow> int \<Rightarrow> error + Task Result" where
  "new_task d n_rand =
     (case rand_id n_rand of
        Inl e \<Rightarrow> Inl e
      | Inr r \<Rightarrow>
          (let t_id = (case d ''id'' of Some v \<Rightarrow> v | None \<Rightarrow> r) in
           (case d ''name'' of
              None \<Rightarrow> Inl (KeyError ''name'')
            | Some name \<Rightarrow>
                (let alias = (case d ''alias'' of Some v \<Rightarrow> v | None \<Rightarrow> []);
                     task = \<lparr>Task_id = t_id, Task_name = name, Task_alias = alias\<rparr>
                 in (case err (check_name name) of
                       None \<Rightarrow> Inr (Ok task)
                     | Some e \<Rightarrow> Inr (Err e))))))"

record Event =
  Event_id :: string
  Event_task_id :: string
  Event_status :: EventStatus
  Event_laps :: "Lap list"
  Event_work :: int

text \<open>
  The dict an Event is built from and written to, with the five keys the class reads, each
  absent or of the type the dataclass gives its field.
\<close>

record event_dict =
  d_id :: "string option"
  d_task_id :: "string option"
  d_status :: "string option"
  d_laps :: "bytes option"
  d_work :: "int option"

text \<open>
  \<open>Event.__init__(d)\<close> reads the clock twice: \<open>date_id()\<close> is evaluated for the
  default of \<open>d.get("id", ...)\<close> (\<open>now1\<close>), and the initial lap is stamped with a second
  \<open>now()\<close> (\<open>now2\<close>). \<open>d.get("laps", False)\<close> is false for a missing key and for an empty
  byte string.
\<close>

definition Event_init :: "msgpack \<Rightarrow> event_dict \<Rightarrow> int \<Rightarrow> int \<Rightarrow> error + Event" where
  "Event_init mp d now1 now2 =
     (case date_id now1 of
        Inl e \<Rightarrow> Inl e
      | Inr did \<Rightarrow>
          (let e_id = (case d_id d of Some v \<Rightarrow> v | None \<Rightarrow> did) in
           (case d_task_id d of
              None \<Rightarrow> Inl (KeyError ''task_id'')
            | Some task_id \<Rightarrow>
                (let status = (case d_status d of Some v \<Rightarrow> v | None \<Rightarrow> ''Running'') in
                 (case EventStatus_getitem status of
                    Inl e \<Rightarrow> Inl e
                  | Inr st \<Rightarrow>
                      (let lap = (LapName_name Split, now2, 0, 0);
                           r = (case d_laps d of
                                  None \<Rightarrow> Inr [lap]
                                | Some b \<Rightarrow> (if b \<noteq> [] then unpack mp b else Inr [lap]))
                       in (case r of
                             Inl e \<Rightarrow> Inl e
                           | Inr laps \<Rightarrow>
                               Inr \<lparr>Event_id = e_id, Event_task_id = task_id,
                                    Event_status = st, Event_laps = laps,
                                    Event_work =
                                      (case d_work d of Some w \<Rightarrow> w | None \<Rightarrow> 0)\<rparr>)))))))"

definition to_dict :: "msgpack \<Rightarrow> Event \<Rightarrow> error + event_dict" where
  "to_dict mp self =
     (case pack mp (Event_laps self) of
        Inl e \<Rightarrow> Inl e
      | Inr b \<Rightarrow>
          Inr \<lparr>d_id = Some (Event_id self),
               d_task_id = Some (Event_task_id self),
               d_status = Some (EventStatus_name (Event_status self)),
               d_laps = Some b,
               d_work = Some 0\<rparr>)"

section \<open>The methods of Event that util.py calls\<close>

text \<open>
  util.py calls \<open>event.split(cfg)\<close> and \<open>event.stop(cfg)\<close>, and the spec describes
  \<open>pause\<close> and \<open>resume\<close> beside them; model.py defines none of the four. The
  definitions of this section follow sections 4.1 and 4.2 of the spec. The time each
  method reads from the clock is its argument \<open>now\<close>.
\<close>

text \<open>
  Modelled from the spec: the Lap Ledger's \<open>open(kind, at)\<close>, missing from model.py:
  "appends a new open lap (kind, at, 0, 0)".
\<close>

definition ledger_open :: "LapName \<Rightarrow> int \<Rightarrow> Lap list \<Rightarrow> Lap list" where
  "ledger_open kind at laps = laps @ [(LapName_name kind, at, 0, 0)]"

text \<open>
  Modelled from the spec: when a lap is open, missing from model.py: "end: timestamp
  (0 while open)".
\<close>

definition lap_open :: "Lap \<Rightarrow> bool" where
  "lap_open lap = (case lap of (kind, start, end, len) \<Rightarrow> end = 0)"

text \<open>
  Modelled from the spec: the Lap Ledger's \<open>close(at)\<close>, missing from model.py: "closes
  the current open lap, setting end=at, length=at-start. Precondition: an open lap
  exists", the open lap being "always the last element". Where the precondition fails the
  model raises \<open>NoOpenLap\<close>.
\<close>

definition ledger_close :: "int \<Rightarrow> Lap list \<Rightarrow> error + Lap list" where
  "ledger_close at laps =
     (if laps = [] then Inl NoOpenLap
      else if \<not> lap_open (last laps) then Inl NoOpenLap
      else (case last laps of
              (kind, start, end, len) \<Rightarrow> Inr (butlast laps @ [(kind, start, at, at - start)])))"

text \<open>
  Modelled from the spec: the Lap Ledger's \<open>total_work()\<close>, missing from model.py: "sum
  of length over all closed laps whose kind == Split".
\<close>

definition total_work :: "Lap list \<Rightarrow> int" where
  "total_work laps =
     sum_list (map (\<lambda>(kind, start, end, len). len)
       (filter (\<lambda>lap. \<not> lap_open lap \<and> fst lap = LapName_name Split) laps))"

text \<open>
  Modelled from the spec: the discard rules of section 4.2, missing from model.py: a Split
  lap is discarded "if its length < split_min minutes", a Pause lap "if the pause length <
  pause_min minutes OR > pause_max minutes".
\<close>

definition lap_discarded :: "Config \<Rightarrow> Lap \<Rightarrow> bool" where
  "lap_discarded cfg lap =
     (case lap of
        (kind, start, end, len) \<Rightarrow>
          if kind = LapName_name Split then len < split_min cfg * 60
          else if kind = LapName_name Pause
          then len < pause_min cfg * 60 \<or> len > pause_max cfg * 60
          else False)"

text \<open>
  Modelled from the spec: closing the current open lap "applying the relevant discard
  rule", missing from model.py: a discarded lap is "discarded entirely from the ledger".
\<close>

definition close_current :: "Config \<Rightarrow> int \<Rightarrow> Lap list \<Rightarrow> error + Lap list" where
  "close_current cfg now laps =
     (case ledger_close now laps of
        Inl e \<Rightarrow> Inl e
      | Inr closed \<Rightarrow>
          Inr (if lap_discarded cfg (last closed) then butlast closed else closed))"

text \<open>
  Modelled from the spec: \<open>Event.split\<close>, missing from model.py: "valid only in Running.
  Closes the current Split lap at now; if its length < split_min minutes, the lap is
  discarded [...]. Opens a new Split lap at now. Remains Running."
\<close>

definition Event_split :: "Config \<Rightarrow> int \<Rightarrow> Event \<Rightarrow> error + Event" where
  "Event_split cfg now self =
     (if Event_status self \<noteq> Running then Inl InvalidStateError
      else (case close_current cfg now (Event_laps self) of
              Inl e \<Rightarrow> Inl e
            | Inr laps \<Rightarrow> Inr (self\<lparr>Event_laps := ledger_open Split now laps\<rparr>)))"

text \<open>
  Modelled from the spec: \<open>Event.pause\<close>, missing from model.py: "valid only in Running.
  Closes current Split lap (applying the same split_min discard rule), opens a Pause lap
  at now. Transitions to Pausing."
\<close>

definition Event_pause :: "Config \<Rightarrow> int \<Rightarrow> Event \<Rightarrow> error + Event" where
  "Event_pause cfg now self =
     (if Event_status self \<noteq> Running then Inl InvalidStateError
      else (case close_current cfg now (Event_laps self) of
              Inl e \<Rightarrow> Inl e
            | Inr laps \<Rightarrow>
                Inr (self\<lparr>Event_laps := ledger_open Pause now laps,
                          Event_status := Pausing\<rparr>)))"

text \<open>
  Modelled from the spec: \<open>Event.resume\<close>, missing from model.py: "valid only in Pausing.
  Closes the Pause lap at now. [...] if the pause length < pause_min minutes OR > pause_max
  minutes, the pause lap is discarded entirely from the ledger [...] otherwise the pause
  lap is retained [...]. Opens a new Split lap at now. Transitions to Running."
\<close>

definition Event_resume :: "Config \<Rightarrow> int \<Rightarrow> Event \<Rightarrow> error + Event" where
  "Event_resume cfg now self =
     (if Event_status self \<noteq> Pausing then Inl InvalidStateError
      else (case close_current cfg now (Event_laps self) of
              Inl e \<Rightarrow> Inl e
            | Inr laps \<Rightarrow>
                Inr (self\<lparr>Event_laps := ledger_open Split now laps,
                          Event_status := Running\<rparr>)))"

text \<open>
  Modelled from the spec: \<open>Event.stop\<close>, missing from model.py: "valid in Running or
  Pausing. Closes the current open lap applying the relevant discard rule [...]. Sets
  work = total_work(). Transitions to Stopped".
\<close>

definition Event_stop :: "Config \<Rightarrow> int \<Rightarrow> Event \<Rightarrow> error + Event" where
  "Event_stop cfg now self =
     (if Event_status self = Stopped then Inl InvalidStateError
      else (case close_current cfg now (Event_laps self) of
              Inl e \<Rightarrow> Inl e
            | Inr laps \<Rightarrow>
                Inr (self\<lparr>Event_laps := laps,
                          Event_work := total_work laps,
                          Event_status := Stopped\<rparr>)))"

section \<open>The database\<close>

text \<open>
  The module \<open>db\<close> is not among the sources. A connection is modelled by what the
  database holds: the tasks, and the events in the order of their creation. The
  operations follow section 6 of the spec.
\<close>

record Conn =
  tasks :: "Task list"
  events :: "Event list"

text \<open>
  Modelled from the spec: \<open>db.get_last_event\<close>, missing from the sources:
  "get_last_event() -> Result<Event> (most recently created, fails if none exist)".
\<close>

definition db_get_last_event :: "Conn \<Rightarrow> Event Result" where
  "db_get_last_event conn =
     (if events conn = [] then Err NotFound else Ok (last (events conn)))"

text \<open>
  Modelled from the spec: \<open>db.insert_event\<close>, missing from the sources:
  "insert_event(Event)".
\<close>

definition db_insert_event :: "Conn \<Rightarrow> Event \<Rightarrow> Conn" where
  "db_insert_event conn event = conn\<lparr>events := events conn @ [event]\<rparr>"

text \<open>
  Modelled from the spec: \<open>db.update_laps\<close>, missing from the sources:
  "update_laps(Event) (persists the serialized Lap Ledger and status)".
\<close>

definition db_update_laps :: "Conn \<Rightarrow> Event \<Rightarrow> Conn" where
  "db_update_laps conn event =
     conn\<lparr>events :=
       map (\<lambda>x. if Event_id x = Event_id event
                 then x\<lparr>Event_laps := Event_laps event, Event_status := Event_status event\<rparr>
                 else x)
         (events conn)\<rparr>"

text \<open>
  Modelled from the spec: \<open>db.delete_event\<close>, missing from the sources:
  "delete_event(id)".
\<close>

definition db_delete_event :: "Conn \<Rightarrow> string \<Rightarrow> Conn" where
  "db_delete_event conn event_id =
     conn\<lparr>events := filter (\<lambda>x. Event_id x \<noteq> event_id) (events conn)\<rparr>"

text \<open>
  Modelled from the spec: \<open>db.get_task_by_name\<close>, missing from the sources:
  "get_task_by_name(name) -> Result<Task>", which fails "with NotFoundError when absent".
\<close>

definition db_get_task_by_name :: "Conn \<Rightarrow> string \<Rightarrow> Task Result" where
  "db_get_task_by_name conn name =
     (case find (\<lambda>t. Task_name t = name) (tasks conn) of
        None \<Rightarrow> Err NotFound
      | Some t \<Rightarrow> Ok t)"

text \<open>
  Modelled from the spec: \<open>db.get_task_by_id\<close>, missing from the sources:
  "get_task_by_id(id) -> Result<Task>", which fails "with NotFoundError when absent".
\<close>

definition db_get_task_by_id :: "Conn \<Rightarrow> string \<Rightarrow> Task Result" where
  "db_get_task_by_id conn task_id =
     (case find (\<lambda>t. Task_id t = task_id) (tasks conn) of
        None \<Rightarrow> Err NotFound
      | Some t \<Rightarrow> Ok t)"

section \<open>util.py\<close>

text \<open>
  What a command prints, in order. The texts themselves (the language chosen by \<open>lang\<close>,
  the formatting of dates and durations) are not modelled: a status display is kept as
  the event and the task it shows.
\<close>

datatype printed =
    Print MultiText
  | RunningStatus Event Task
  | StoppedStatus

definition check_last_event_stopped :: "Conn \<Rightarrow> string Result" where
  "check_last_event_stopped conn =
     (let r = db_get_last_event conn in
      (case r of
         Err e \<Rightarrow> OK
       | Ok event \<Rightarrow>
           (if Event_status event \<noteq> Stopped then Err CannotMakeNewEvent else OK)))"

text \<open>
  \<open>event_start\<close> returns the message it has for the caller; the connection is returned
  beside it. An exception ends the command (\<open>Inl\<close>). After the insertion the source
  formats \<open>event.started\<close> for the message; \<open>started\<close> is, like \<open>split\<close> and \<open>stop\<close>,
  not defined in model.py, it goes into the text of the message only and is left out of
  the tag \<open>EventStarted\<close>.
\<close>

definition event_start ::
  "msgpack \<Rightarrow> Conn \<Rightarrow> string \<Rightarrow> int \<Rightarrow> int \<Rightarrow> error + (MultiText \<times> Conn)" where
  "event_start mp conn name now1 now2 =
     (case err (check_last_event_stopped conn) of
        Some e \<Rightarrow> Inr (e, conn)
      | None \<Rightarrow>
          (let r = db_get_task_by_name conn name in
           (if is_err r then Inr (TaskNotFound name, conn)
            else (case unwrap r of
                    Inl e \<Rightarrow> Inl e
                  | Inr task \<Rightarrow>
                      (case Event_init mp
                              \<lparr>d_id = None, d_task_id = Some (Task_id task), d_status = None,
                               d_laps = None, d_work = None\<rparr> now1 now2 of
                         Inl e \<Rightarrow> Inl e
                       | Inr event \<Rightarrow>
                           (let conn' = db_insert_event conn event in
                            (if Task_alias task \<noteq> []
                             then Inr (EventStarted (Event_id event) (Task_name task)
                                         (Some (Task_alias task)), conn')
                             else Inr (EventStarted (Event_id event) (Task_name task) None,
                                       conn'))))))))"

definition get_last_event :: "Conn \<Rightarrow> Event Result" where
  "get_last_event conn =
     (case db_get_last_event conn of
        Err e \<Rightarrow> Err e
      | Ok event \<Rightarrow>
          (if Event_status event = Stopped then Err NoRunningEvent else Ok event))"

definition show_running_status :: "Conn \<Rightarrow> Event \<Rightarrow> Task option \<Rightarrow> error + printed list" where
  "show_running_status conn event task =
     (case (case task of
              None \<Rightarrow> unwrap (db_get_task_by_id conn (Event_task_id event))
            | Some t \<Rightarrow> Inr t) of
        Inl e \<Rightarrow> Inl e
      | Inr t \<Rightarrow> Inr [RunningStatus event t])"

definition show_status :: "Conn \<Rightarrow> error + printed list" where
  "show_status conn =
     (case db_get_last_event conn of
        Err e \<Rightarrow> Inr [Print e]
      | Ok event \<Rightarrow>
          (case unwrap (db_get_task_by_id conn (Event_task_id event)) of
             Inl e \<Rightarrow> Inl e
           | Inr task \<Rightarrow>
               (if Event_status event = Stopped then Inr [StoppedStatus]
                else show_running_status conn event (Some task))))"

definition event_split :: "Conn \<Rightarrow> Config \<Rightarrow> int \<Rightarrow> error + (printed list \<times> Conn)" where
  "event_split conn cfg now =
     (let r = get_last_event conn in
      (case r of
         Err e \<Rightarrow> Inr ([Print e], conn)
       | Ok event0 \<Rightarrow>
           (case Event_split cfg now event0 of
              Inl e \<Rightarrow> Inl e
            | Inr event \<Rightarrow>
                (let conn' = db_update_laps conn event in
                 (case show_status conn' of
                    Inl e \<Rightarrow> Inl e
                  | Inr out \<Rightarrow> Inr (out, conn'))))))"

definition event_stop :: "Conn \<Rightarrow> Config \<Rightarrow> int \<Rightarrow> error + (printed list \<times> Conn)" where
  "event_stop conn cfg now =
     (let r = get_last_event conn in
      (case r of
         Err e \<Rightarrow> Inr ([Print e], conn)
       | Ok event0 \<Rightarrow>
           (case Event_stop cfg now event0 of
              Inl e \<Rightarrow> Inl e
            | Inr event \<Rightarrow>
                (let conn' = db_update_laps conn event in
                 (if Event_work event \<le> split_min cfg
                  then (case show_running_status conn' event None of
                          Inl e \<Rightarrow> Inl e
                        | Inr out \<Rightarrow>
                            Inr (Print AutoDeleted # out,
                                 db_delete_event conn' (Event_id event)))
                  else (case show_running_status conn' event None of
                          Inl e \<Rightarrow> Inl e
                        | Inr out \<Rightarrow> Inr (out, conn')))))))"

section \<open>Properties stated by the spec\<close>

text \<open>
  The spec's words for a valid task name: "name must match \<open>[-_0-9a-zA-Z]+\<close>", one or
  more characters of that class.
\<close>

definition spec_name_char :: "char \<Rightarrow> bool" where
  "spec_name_char c \<longleftrightarrow>
     c \<in> set ''-_0123456789abcdefghijklmnopqrstuvwxyzABCDEFGHIJKLMNOPQRSTUVWXYZ''"

definition matches_name_pattern :: "string \<Rightarrow> bool" where
  "matches_name_pattern name \<longleftrightarrow> name \<noteq> [] \<and> list_all spec_name_char name"

text \<open>
  The storage as the commands leave it: every event but the most recent one is Stopped.
\<close>

definition only_last_may_run :: "Conn \<Rightarrow> bool" where
  "only_last_may_run conn \<longleftrightarrow>
     list_all (\<lambda>e. Event_status e = Stopped) (butlast (events conn))"

definition non_stopped :: "Conn \<Rightarrow> Event list" where
  "non_stopped conn = filter (\<lambda>e. Event_status e \<noteq> Stopped) (events conn)"

text \<open>
  The ledger of a Running event as the spec's testable property describes it: exactly one
  open lap, which is the last element, and no closed Split lap shorter than \<open>split_min\<close>
  minutes.
\<close>

definition lap_len :: "Lap \<Rightarrow> int" where
  "lap_len lap = (case lap of (kind, start, end, len) \<Rightarrow> len)"

definition one_open_lap_last :: "Lap list \<Rightarrow> bool" where
  "one_open_lap_last laps \<longleftrightarrow>
     laps \<noteq> [] \<and> lap_open (last laps) \<and> list_all (\<lambda>lap. \<not> lap_open lap) (butlast laps)"

definition no_short_split :: "Config \<Rightarrow> Lap list \<Rightarrow> bool" where
  "no_short_split cfg laps \<longleftrightarrow>
     list_all (\<lambda>lap. fst lap = LapName_name Split \<and> \<not> lap_open lap
                      \<longrightarrow> split_min cfg * 60 \<le> lap_len lap) laps"

text \<open>
  A sequence of \<open>split()\<close> calls on one event, at the clock readings \<open>ts\<close>; the first
  call that raises ends the sequence.
\<close>

fun split_calls :: "Config \<Rightarrow> int list \<Rightarrow> Event \<Rightarrow> error + Event" where
  "split_calls cfg [] self = Inr self"
| "split_calls cfg (now # ts) self =
     (case Event_split cfg now self of
        Inl e \<Rightarrow> Inl e
      | Inr self' \<Rightarrow> split_calls cfg ts self')"

section \<open>Example data\<close>

text \<open>
  A task, two events and a codec for the concrete instances below. The codec knows one
  ledger only, that of \<open>ex_stopped\<close>, with the bytes msgpack writes for it, and raises on
  anything else.
\<close>

definition ex_task :: Task where
  "ex_task = \<lparr>Task_id = ''1000'', Task_name = ''coding'', Task_alias = []\<rparr>"

definition ex_stopped :: Event where
  "ex_stopped = \<lparr>Event_id = ''rs'', Event_task_id = ''1000'', Event_status = Stopped,
                  Event_laps = [(''Split'', 1000, 1400, 400)], Event_work = 400\<rparr>"

definition ex_running :: Event where
  "ex_running = \<lparr>Event_id = ''1jk'', Event_task_id = ''1000'', Event_status = Running,
                  Event_laps = [(''Split'', 2000, 0, 0)], Event_work = 0\<rparr>"

definition ex_bytes :: bytes where
  "ex_bytes = [0x91, 0x94, 0xa5, 0x53, 0x70, 0x6c, 0x69, 0x74,
               0xcd, 0x03, 0xe8, 0xcd, 0x05, 0x78, 0xcd, 0x01, 0x90]"

definition ex_codec :: msgpack where
  "ex_codec =
     \<lparr>packb = (\<lambda>laps. if laps = [(''Split'', 1000, 1400, 400)] then Inr ex_bytes
                       else Inl (ValueError [])),
      unpackb = (\<lambda>b. if b = ex_bytes then Inr [(''Split'', 1000, 1400, 400)]
                      else Inl (ValueError []))\<rparr>"

section \<open>Identifiers are four base-36 characters\<close>

lemma int_of_str_1000: "int_of_str ''1000'' 36 = Inr 46656"
  by (simp add: int_of_str_def digits_def)

lemma int_of_str_zzzz: "int_of_str ''zzzz'' 36 = Inr 1679615"
  by (simp add: int_of_str_def digits_def)

lemma rand_id_range_iff: "rand_id_range n \<longleftrightarrow> 46656 \<le> n \<and> n \<le> 1679615"
  by (auto simp add: rand_id_range_def int_of_str_1000 int_of_str_zzzz randrange_def)

text \<open>A number of \<open>k + 1\<close> digits in the base makes the loop append \<open>k + 1\<close> entries.\<close>

lemma base_repr_loop_length:
  "0 < num \<Longrightarrow> 2 \<le> base \<Longrightarrow> base ^ k \<le> num \<Longrightarrow> num < base ^ Suc k
   \<Longrightarrow> length (base_repr_loop num base res) = length res + Suc k"
proof (induction k arbitrary: num res)
  case 0
  then have "num div base = 0" by simp
  with 0 show ?case
    by (simp add: base_repr_loop.simps [of num] base_repr_loop.simps [of 0])
next
  case (Suc k)
  have "0 \<le> num mod base" using Suc.prems(2) by simp
  moreover have "base * (num div base) + num mod base = num" by simp
  ultimately have le: "base * (num div base) \<le> num" by linarith
  have lo: "base ^ k \<le> num div base"
  proof -
    have "base ^ k * base \<le> num" using Suc.prems by (simp add: mult.commute)
    then have "(base ^ k * base) div base \<le> num div base"
      using Suc.prems(2) by (intro zdiv_mono1) auto
    then show ?thesis using Suc.prems(2) by simp
  qed
  have hi: "num div base < base ^ Suc k"
  proof (rule ccontr)
    assume "\<not> num div base < base ^ Suc k"
    then have "base ^ Suc k \<le> num div base" by simp
    then have "base * base ^ Suc k \<le> base * (num div base)"
      using Suc.prems(2) by (intro mult_left_mono) auto
    moreover have "num < base * base ^ Suc k" using Suc.prems by simp
    ultimately show False using le by linarith
  qed
  have pos: "0 < num div base"
  proof -
    have "0 < base ^ k" using Suc.prems(2) by simp
    then show ?thesis using lo by linarith
  qed
  have "length (base_repr_loop (num div base) base (res @ [[digits ! nat (num mod base)]]))
        = length (res @ [[digits ! nat (num mod base)]]) + Suc k"
    using Suc.IH [OF pos Suc.prems(2) lo hi] .
  then show ?case
    using Suc.prems(1,2) by (simp add: base_repr_loop.simps [of num])
qed

text \<open>Every entry the loop appends is one character of \<open>digits\<close>.\<close>

lemma base_repr_loop_entries:
  "2 \<le> base \<Longrightarrow> base \<le> 36
   \<Longrightarrow> \<forall>s \<in> set res. length s = 1 \<and> set s \<subseteq> set digits
   \<Longrightarrow> \<forall>s \<in> set (base_repr_loop num base res). length s = 1 \<and> set s \<subseteq> set digits"
proof (induction num base res rule: base_repr_loop.induct)
  case (1 num base res)
  show ?case
  proof (cases "num = 0 \<or> num < 0 \<or> base < 2")
    case True
    then show ?thesis using "1.prems" by (auto simp add: base_repr_loop.simps [of num])
  next
    case False
    have "0 \<le> num mod base" "num mod base < base" using "1.prems"(1) by auto
    then have "nat (num mod base) < length digits"
      using "1.prems"(2) by (simp add: digits_def)
    then have "digits ! nat (num mod base) \<in> set digits" by (rule nth_mem)
    then have "\<forall>s \<in> set (res @ [[digits ! nat (num mod base)]]).
                 length s = 1 \<and> set s \<subseteq> set digits"
      using "1.prems"(3) by auto
    then have "\<forall>s \<in> set (base_repr_loop (num div base) base
                              (res @ [[digits ! nat (num mod base)]])).
                 length s = 1 \<and> set s \<subseteq> set digits"
      using "1.IH" False "1.prems"(1,2) by blast
    then show ?thesis using False by (simp add: base_repr_loop.simps [of num])
  qed
qed

lemma concat_one_char_strings:
  "\<forall>s \<in> set xs. length s = 1 \<and> set s \<subseteq> A
   \<Longrightarrow> length (concat xs) = length xs \<and> set (concat xs) \<subseteq> A"
  by (induction xs) auto

text \<open>
  Claim C9. For every number \<open>n\<close> that \<open>randrange(int("1000", 36), int("zzzz", 36) + 1)\<close>
  can draw, \<open>rand_id\<close>, that is \<open>base_repr(n, 36)\<close>, returns a string of exactly four
  characters, each one of \<open>0-9\<close> and \<open>a-z\<close>.
\<close>

theorem rand_id_four_base36_chars:
  assumes "rand_id_range n"
  shows "\<exists>s. rand_id n = Inr s \<and> base_repr n 36 0 = Inr s \<and> length s = 4
             \<and> set s \<subseteq> set ''0123456789abcdefghijklmnopqrstuvwxyz''"
proof -
  from assms have lo: "46656 \<le> n" and hi: "n \<le> 1679615"
    by (simp_all add: rand_id_range_iff)
  let ?res = "base_repr_loop n 36 []"
  have len: "length ?res = 4"
    using base_repr_loop_length [of n 36 3 "[]"] lo hi by simp
  have "\<forall>s \<in> set ?res. length s = 1 \<and> set s \<subseteq> set digits"
    using base_repr_loop_entries [of 36 "[]" n] by simp
  then have el: "\<forall>s \<in> set (rev ?res). length s = 1 \<and> set s \<subseteq> set digits"
    by simp
  have ne: "?res \<noteq> []" using len by auto
  have r: "base_repr n 36 0 = Inr (concat (rev ?res))"
    using lo ne by (simp add: base_repr_def digits_def Let_def)
  have "length (concat (rev ?res)) = 4 \<and> set (concat (rev ?res)) \<subseteq> set digits"
    using concat_one_char_strings [OF el] len by simp
  then show ?thesis
    using r by (simp add: rand_id_def digits_def)
qed

theorem rand_id_four_base36_chars_witness:
  "rand_id_range 1679615
   \<and> (\<exists>s. rand_id 1679615 = Inr s \<and> base_repr 1679615 36 0 = Inr s \<and> length s = 4
            \<and> set s \<subseteq> set ''0123456789abcdefghijklmnopqrstuvwxyz'')"
proof -
  have h: "rand_id_range 1679615" by (simp add: rand_id_range_iff)
  show ?thesis using h rand_id_four_base36_chars [OF h] by simp
qed

section \<open>Task names\<close>

lemma base_repr_36_returns: "\<exists>s. base_repr n 36 0 = Inr s"
  by (simp add: base_repr_def digits_def Let_def)

lemma name_char_spec: "name_char c = spec_name_char c"
  by (auto simp add: name_char_def spec_name_char_def)

lemma NameForbidPattern_search_None:
  "NameForbidPattern_search name = None \<longleftrightarrow> list_all name_char name"
  by (auto simp add: NameForbidPattern_search_def find_None_iff list_all_iff)

lemma check_name_eq:
  "check_name name = (if list_all name_char name then OK else Err NameNotAllowed)"
  by (simp add: check_name_def NameForbidPattern_search_None)

lemma new_task_result:
  assumes "d ''name'' = Some name"
  shows "(list_all spec_name_char name \<longrightarrow>
            (\<exists>t. new_task d n = Inr (Ok t) \<and> Task_name t = name))
         \<and> (\<not> list_all spec_name_char name \<longrightarrow> new_task d n = Inr (Err NameNotAllowed))"
proof -
  obtain r where r: "rand_id n = Inr r"
    using base_repr_36_returns [of n] by (auto simp add: rand_id_def)
  show ?thesis
    using assms r
    by (simp add: new_task_def check_name_eq name_char_spec [abs_def] OK_def Let_def)
qed

text \<open>
  Claim C4, as stated, fails: the empty name does not match \<open>[-_0-9a-zA-Z]+\<close>, and
  \<open>new_task\<close> returns a task for it. \<open>check_name\<close> only searches the name for a
  character outside of the class, and the empty name has none.
\<close>

theorem new_task_accepts_empty_name:
  "\<not> matches_name_pattern []
   \<and> new_task [''name'' \<mapsto> []] 46656
       = Inr (Ok \<lparr>Task_id = ''1000'', Task_name = [], Task_alias = []\<rparr>)"
  by (simp add: matches_name_pattern_def new_task_def rand_id_def base_repr_def digits_def
        base_repr_loop.simps check_name_def NameForbidPattern_search_def OK_def Let_def)

text \<open>
  Claim C4, amended. \<open>new_task\<close> returns a success result, a task of that name, exactly
  when the name is empty or matches \<open>[-_0-9a-zA-Z]+\<close>, that is when each of its characters
  is one of \<open>-\<close>, \<open>_\<close>, \<open>0-9\<close>, \<open>a-z\<close>, \<open>A-Z\<close>; for every other name it fails with the
  invalid-name error.
\<close>

theorem new_task_accepts_allowed_chars:
  assumes "d ''name'' = Some name"
  shows "(name = [] \<or> matches_name_pattern name \<longrightarrow>
            (\<exists>t. new_task d n = Inr (Ok t) \<and> Task_name t = name))
         \<and> (\<not> (name = [] \<or> matches_name_pattern name) \<longrightarrow>
              new_task d n = Inr (Err NameNotAllowed))"
proof -
  have "name = [] \<or> matches_name_pattern name \<longleftrightarrow> list_all spec_name_char name"
    by (auto simp add: matches_name_pattern_def)
  then show ?thesis using assms new_task_result [of d name n] by simp
qed

theorem new_task_accepts_allowed_chars_witness:
  "[''name'' \<mapsto> ''my-task_1''] ''name'' = Some ''my-task_1''
   \<and> matches_name_pattern ''my-task_1''
   \<and> (\<exists>t. new_task [''name'' \<mapsto> ''my-task_1''] 46656 = Inr (Ok t)
            \<and> Task_name t = ''my-task_1'')
   \<and> [''name'' \<mapsto> ''a b''] ''name'' = Some ''a b''
   \<and> \<not> (''a b'' = [] \<or> matches_name_pattern ''a b'')
   \<and> new_task [''name'' \<mapsto> ''a b''] 46656 = Inr (Err NameNotAllowed)"
proof -
  have h1: "[''name'' \<mapsto> ''my-task_1''] ''name'' = Some ''my-task_1''" by simp
  have h2: "[''name'' \<mapsto> ''a b''] ''name'' = Some ''a b''" by simp
  have a1: "matches_name_pattern ''my-task_1''"
    by (simp add: matches_name_pattern_def spec_name_char_def)
  have a2: "\<not> (''a b'' = [] \<or> matches_name_pattern ''a b'')"
    by (simp add: matches_name_pattern_def spec_name_char_def)
  show ?thesis
    using h1 h2 a1 a2
      new_task_accepts_allowed_chars [of "[''name'' \<mapsto> ''my-task_1'']" "''my-task_1''" 46656]
      new_task_accepts_allowed_chars [of "[''name'' \<mapsto> ''a b'']" "''a b''" 46656]
    by blast
qed

section \<open>Starting an event\<close>

lemma Event_init_task_id_only:
  "\<exists>eid. date_id now1 = Inr eid
     \<and> Event_init mp \<lparr>d_id = None, d_task_id = Some task_id, d_status = None,
                       d_laps = None, d_work = None\<rparr> now1 now2
       = Inr \<lparr>Event_id = eid, Event_task_id = task_id, Event_status = Running,
              Event_laps = [(''Split'', now2, 0, 0)], Event_work = 0\<rparr>"
proof -
  obtain eid where "date_id now1 = Inr eid"
    using base_repr_36_returns [of now1] by (auto simp add: date_id_def)
  then show ?thesis
    by (simp add: Event_init_def EventStatus_getitem_def Let_def)
qed

lemma check_last_event_stopped_err:
  "err (check_last_event_stopped conn) = Some m \<Longrightarrow> m = CannotMakeNewEvent"
  by (auto simp add: check_last_event_stopped_def OK_def Let_def
           split: Result.splits if_splits)

lemma check_last_event_stopped_Some:
  "err (check_last_event_stopped conn) = Some CannotMakeNewEvent
   \<longleftrightarrow> events conn \<noteq> [] \<and> Event_status (last (events conn)) \<noteq> Stopped"
  by (auto simp add: check_last_event_stopped_def db_get_last_event_def OK_def Let_def
           split: Result.splits if_splits)

lemma check_last_event_stopped_None:
  "err (check_last_event_stopped conn) = None
   \<longleftrightarrow> events conn = [] \<or> Event_status (last (events conn)) = Stopped"
  by (auto simp add: check_last_event_stopped_def db_get_last_event_def OK_def Let_def
           split: Result.splits if_splits)

text \<open>The three outcomes of \<open>event_start\<close>.\<close>

lemma event_start_when_running:
  "events conn \<noteq> [] \<Longrightarrow> Event_status (last (events conn)) \<noteq> Stopped
   \<Longrightarrow> event_start mp conn name now1 now2 = Inr (CannotMakeNewEvent, conn)"
  using check_last_event_stopped_Some [of conn]
  by (simp add: event_start_def)

lemma event_start_no_task:
  "events conn = [] \<or> Event_status (last (events conn)) = Stopped
   \<Longrightarrow> db_get_task_by_name conn name = Err m
   \<Longrightarrow> event_start mp conn name now1 now2 = Inr (TaskNotFound name, conn)"
  using check_last_event_stopped_None [of conn]
  by (simp add: event_start_def)

lemma event_start_proceeds:
  assumes "events conn = [] \<or> Event_status (last (events conn)) = Stopped"
    and "db_get_task_by_name conn name = Ok task"
  shows "\<exists>eid al. event_start mp conn name now1 now2
           = Inr (EventStarted eid (Task_name task) al,
                  db_insert_event conn
                    \<lparr>Event_id = eid, Event_task_id = Task_id task, Event_status = Running,
                     Event_laps = [(''Split'', now2, 0, 0)], Event_work = 0\<rparr>)"
proof -
  obtain eid where e:
    "Event_init mp \<lparr>d_id = None, d_task_id = Some (Task_id task), d_status = None,
                    d_laps = None, d_work = None\<rparr> now1 now2
       = Inr \<lparr>Event_id = eid, Event_task_id = Task_id task, Event_status = Running,
              Event_laps = [(''Split'', now2, 0, 0)], Event_work = 0\<rparr>"
    using Event_init_task_id_only [of now1 mp "Task_id task" now2] by blast
  have n: "err (check_last_event_stopped conn) = None"
    using assms(1) check_last_event_stopped_None [of conn] by simp
  show ?thesis
    using n assms(2) e by (simp add: event_start_def Let_def)
qed

lemma event_start_cases:
  "event_start mp conn name now1 now2 = Inr (CannotMakeNewEvent, conn)
   \<or> event_start mp conn name now1 now2 = Inr (TaskNotFound name, conn)
   \<or> (\<exists>eid tname al tid. event_start mp conn name now1 now2
           = Inr (EventStarted eid tname al,
                  db_insert_event conn
                    \<lparr>Event_id = eid, Event_task_id = tid, Event_status = Running,
                     Event_laps = [(''Split'', now2, 0, 0)], Event_work = 0\<rparr>)
         \<and> (events conn = [] \<or> Event_status (last (events conn)) = Stopped))"
proof (cases "events conn \<noteq> [] \<and> Event_status (last (events conn)) \<noteq> Stopped")
  case True
  then show ?thesis using event_start_when_running by blast
next
  case False
  then have ok: "events conn = [] \<or> Event_status (last (events conn)) = Stopped" by blast
  show ?thesis
  proof (cases "db_get_task_by_name conn name")
    case (Err m)
    then show ?thesis using event_start_no_task [OF ok Err, of mp now1 now2] by blast
  next
    case (Ok task)
    then show ?thesis using event_start_proceeds [OF ok Ok, of mp now1 now2] ok by blast
  qed
qed

text \<open>
  Claim C6. The Event built from a dict that holds \<open>task_id\<close> only is Running, has
  \<open>work = 0\<close> and one lap, the open Split lap \<open>(Split, now, 0, 0)\<close> stamped with the
  clock reading of the constructor; and whenever \<open>event_start\<close> reports a started event,
  the event it has added to the storage is of this shape.
\<close>

theorem event_start_creates_running_event:
  "(\<exists>eid. Event_init mp \<lparr>d_id = None, d_task_id = Some task_id, d_status = None,
                          d_laps = None, d_work = None\<rparr> now1 now2
       = Inr \<lparr>Event_id = eid, Event_task_id = task_id, Event_status = Running,
              Event_laps = [(LapName_name Split, now2, 0, 0)], Event_work = 0\<rparr>)
   \<and> (\<forall>eid tname al conn'.
         event_start mp conn name now1 now2 = Inr (EventStarted eid tname al, conn')
         \<longrightarrow> (\<exists>tid. events conn' = events conn @
                [\<lparr>Event_id = eid, Event_task_id = tid, Event_status = Running,
                  Event_laps = [(LapName_name Split, now2, 0, 0)], Event_work = 0\<rparr>]))"
proof (intro conjI allI impI)
  show "\<exists>eid. Event_init mp \<lparr>d_id = None, d_task_id = Some task_id, d_status = None,
                       d_laps = None, d_work = None\<rparr> now1 now2
       = Inr \<lparr>Event_id = eid, Event_task_id = task_id, Event_status = Running,
              Event_laps = [(LapName_name Split, now2, 0, 0)], Event_work = 0\<rparr>"
    using Event_init_task_id_only [of now1 mp task_id now2] by auto
next
  fix eid tname al conn'
  assume a: "event_start mp conn name now1 now2 = Inr (EventStarted eid tname al, conn')"
  then show "\<exists>tid. events conn' = events conn @
                [\<lparr>Event_id = eid, Event_task_id = tid, Event_status = Running,
                  Event_laps = [(LapName_name Split, now2, 0, 0)], Event_work = 0\<rparr>]"
    using event_start_cases [of mp conn name now1 now2]
    by (auto simp add: db_insert_event_def)
qed

theorem event_start_creates_running_event_witness:
  "event_start \<lparr>packb = (\<lambda>laps. Inl (ValueError [])), unpackb = (\<lambda>b. Inl (ValueError []))\<rparr>
     \<lparr>tasks = [\<lparr>Task_id = ''1000'', Task_name = ''coding'', Task_alias = []\<rparr>], events = []\<rparr>
     ''coding'' 1000 1001
   = Inr (EventStarted ''rs'' ''coding'' None,
          \<lparr>tasks = [\<lparr>Task_id = ''1000'', Task_name = ''coding'', Task_alias = []\<rparr>],
           events = [\<lparr>Event_id = ''rs'', Event_task_id = ''1000'', Event_status = Running,
                      Event_laps = [(''Split'', 1001, 0, 0)], Event_work = 0\<rparr>]\<rparr>)
   \<and> (\<exists>tid. events \<lparr>tasks = [\<lparr>Task_id = ''1000'', Task_name = ''coding'', Task_alias = []\<rparr>],
           events = [\<lparr>Event_id = ''rs'', Event_task_id = ''1000'', Event_status = Running,
                      Event_laps = [(''Split'', 1001, 0, 0)], Event_work = 0\<rparr>]\<rparr>
        = events \<lparr>tasks = [\<lparr>Task_id = ''1000'', Task_name = ''coding'', Task_alias = []\<rparr>],
                  events = []\<rparr> @
                [\<lparr>Event_id = ''rs'', Event_task_id = tid, Event_status = Running,
                  Event_laps = [(LapName_name Split, 1001, 0, 0)], Event_work = 0\<rparr>])"
proof -
  let ?mp = "\<lparr>packb = (\<lambda>laps. Inl (ValueError [])), unpackb = (\<lambda>b. Inl (ValueError []))\<rparr>"
  let ?conn = "\<lparr>tasks = [\<lparr>Task_id = ''1000'', Task_name = ''coding'', Task_alias = []\<rparr>],
                events = []\<rparr>"
  let ?conn' = "\<lparr>tasks = [\<lparr>Task_id = ''1000'', Task_name = ''coding'', Task_alias = []\<rparr>],
           events = [\<lparr>Event_id = ''rs'', Event_task_id = ''1000'', Event_status = Running,
                      Event_laps = [(''Split'', 1001, 0, 0)], Event_work = 0\<rparr>]\<rparr>"
  have run: "event_start ?mp ?conn ''coding'' 1000 1001
               = Inr (EventStarted ''rs'' ''coding'' None, ?conn')"
    by (simp add: event_start_def check_last_event_stopped_def db_get_last_event_def
          db_get_task_by_name_def db_insert_event_def OK_def Event_init_def date_id_def
          base_repr_def base_repr_loop.simps digits_def EventStatus_getitem_def Let_def)
  show ?thesis
    using run event_start_creates_running_event [of ?mp "''1000''" 1000 1001 ?conn "''coding''"]
    by blast
qed

section \<open>Starting is refused while an event is not Stopped\<close>

lemma only_last_may_run_insert:
  "only_last_may_run conn \<Longrightarrow> events conn = [] \<or> Event_status (last (events conn)) = Stopped
   \<Longrightarrow> only_last_may_run (db_insert_event conn e)"
  by (cases "events conn" rule: rev_cases)
     (auto simp add: only_last_may_run_def db_insert_event_def butlast_append)

lemma only_last_may_run_non_stopped:
  "only_last_may_run conn \<Longrightarrow> length (non_stopped conn) \<le> 1"
  by (cases "events conn" rule: rev_cases)
     (auto simp add: only_last_may_run_def non_stopped_def list_all_iff filter_empty_conv)

lemma only_last_may_run_last:
  "only_last_may_run conn \<Longrightarrow> \<exists>e \<in> set (events conn). Event_status e \<noteq> Stopped
   \<Longrightarrow> events conn \<noteq> [] \<and> Event_status (last (events conn)) \<noteq> Stopped"
  by (cases "events conn" rule: rev_cases)
     (auto simp add: only_last_may_run_def list_all_iff)

lemma event_start_keeps_only_last_may_run:
  assumes inv: "only_last_may_run conn"
  shows "\<exists>m conn'. event_start mp conn name now1 now2 = Inr (m, conn')
           \<and> only_last_may_run conn'"
proof -
  consider
    (conflict) "event_start mp conn name now1 now2 = Inr (CannotMakeNewEvent, conn)"
  | (no_task) "event_start mp conn name now1 now2 = Inr (TaskNotFound name, conn)"
  | (started) eid tname al tid where
      "event_start mp conn name now1 now2
         = Inr (EventStarted eid tname al,
                db_insert_event conn
                  \<lparr>Event_id = eid, Event_task_id = tid, Event_status = Running,
                   Event_laps = [(''Split'', now2, 0, 0)], Event_work = 0\<rparr>)"
      "events conn = [] \<or> Event_status (last (events conn)) = Stopped"
    using event_start_cases [of mp conn name now1 now2] by blast
  then show ?thesis
  proof cases
    case conflict
    then show ?thesis using inv by blast
  next
    case no_task
    then show ?thesis using inv by blast
  next
    case started
    then show ?thesis using only_last_may_run_insert [OF inv started(2)] by blast
  qed
qed

lemma event_start_conflict_iff:
  "event_start mp conn name now1 now2 = Inr (CannotMakeNewEvent, conn)
   \<longleftrightarrow> events conn \<noteq> [] \<and> Event_status (last (events conn)) \<noteq> Stopped"
proof
  assume a: "event_start mp conn name now1 now2 = Inr (CannotMakeNewEvent, conn)"
  show "events conn \<noteq> [] \<and> Event_status (last (events conn)) \<noteq> Stopped"
  proof (rule ccontr)
    assume "\<not> (events conn \<noteq> [] \<and> Event_status (last (events conn)) \<noteq> Stopped)"
    then have ok: "events conn = [] \<or> Event_status (last (events conn)) = Stopped" by blast
    show False
    proof (cases "db_get_task_by_name conn name")
      case (Err m)
      then show ?thesis using event_start_no_task [OF ok Err, of mp now1 now2] a by simp
    next
      case (Ok task)
      then show ?thesis using event_start_proceeds [OF ok Ok, of mp now1 now2] a by auto
    qed
  qed
next
  assume "events conn \<noteq> [] \<and> Event_status (last (events conn)) \<noteq> Stopped"
  then show "event_start mp conn name now1 now2 = Inr (CannotMakeNewEvent, conn)"
    using event_start_when_running by blast
qed

text \<open>
  Claim C5. \<open>event_start\<close> answers with the conflict message, and leaves the storage as
  it is, exactly when there is a most recent event and its status is not Stopped. When
  there is no event, or the most recent one is Stopped, it goes on to the task: without a
  task of that name it reports that and changes nothing, with one it appends the new
  event. In a storage where only the most recent event may be other than Stopped, which
  is how the commands leave it, any event that is not Stopped therefore makes
  \<open>event_start\<close> fail; and \<open>event_start\<close> keeps the storage that way, so that after it at
  most one event is not Stopped.
\<close>

theorem event_start_refused_unless_last_stopped:
  "(event_start mp conn name now1 now2 = Inr (CannotMakeNewEvent, conn)
      \<longleftrightarrow> events conn \<noteq> [] \<and> Event_status (last (events conn)) \<noteq> Stopped)
   \<and> (events conn = [] \<or> Event_status (last (events conn)) = Stopped \<longrightarrow>
        (case db_get_task_by_name conn name of
           Err m \<Rightarrow> event_start mp conn name now1 now2 = Inr (TaskNotFound name, conn)
         | Ok task \<Rightarrow>
             (\<exists>eid al. event_start mp conn name now1 now2
                = Inr (EventStarted eid (Task_name task) al,
                       db_insert_event conn
                         \<lparr>Event_id = eid, Event_task_id = Task_id task,
                          Event_status = Running,
                          Event_laps = [(LapName_name Split, now2, 0, 0)],
                          Event_work = 0\<rparr>))))
   \<and> (only_last_may_run conn \<longrightarrow>
        (\<exists>e \<in> set (events conn). Event_status e \<noteq> Stopped) \<longrightarrow>
        event_start mp conn name now1 now2 = Inr (CannotMakeNewEvent, conn))
   \<and> (only_last_may_run conn \<longrightarrow>
        (\<exists>m conn'. event_start mp conn name now1 now2 = Inr (m, conn')
           \<and> only_last_may_run conn' \<and> length (non_stopped conn') \<le> 1))"
proof (intro conjI impI)
  show "event_start mp conn name now1 now2 = Inr (CannotMakeNewEvent, conn)
      \<longleftrightarrow> events conn \<noteq> [] \<and> Event_status (last (events conn)) \<noteq> Stopped"
    by (rule event_start_conflict_iff)
next
  assume ok: "events conn = [] \<or> Event_status (last (events conn)) = Stopped"
  show "case db_get_task_by_name conn name of
           Err m \<Rightarrow> event_start mp conn name now1 now2 = Inr (TaskNotFound name, conn)
         | Ok task \<Rightarrow>
             (\<exists>eid al. event_start mp conn name now1 now2
                = Inr (EventStarted eid (Task_name task) al,
                       db_insert_event conn
                         \<lparr>Event_id = eid, Event_task_id = Task_id task,
                          Event_status = Running,
                          Event_laps = [(LapName_name Split, now2, 0, 0)],
                          Event_work = 0\<rparr>))"
  proof (cases "db_get_task_by_name conn name")
    case (Err m)
    then show ?thesis using event_start_no_task [OF ok Err] by simp
  next
    case (Ok task)
    then show ?thesis using event_start_proceeds [OF ok Ok] by simp
  qed
next
  assume "only_last_may_run conn" and "\<exists>e \<in> set (events conn). Event_status e \<noteq> Stopped"
  then show "event_start mp conn name now1 now2 = Inr (CannotMakeNewEvent, conn)"
    using only_last_may_run_last event_start_when_running by blast
next
  assume inv: "only_last_may_run conn"
  show "\<exists>m conn'. event_start mp conn name now1 now2 = Inr (m, conn')
           \<and> only_last_may_run conn' \<and> length (non_stopped conn') \<le> 1"
    using event_start_keeps_only_last_may_run [OF inv, of mp name now1 now2]
      only_last_may_run_non_stopped by blast
qed

theorem event_start_refused_unless_last_stopped_witness:
  "only_last_may_run \<lparr>tasks = [ex_task], events = [ex_stopped, ex_running]\<rparr>
   \<and> ex_running \<in> set (events \<lparr>tasks = [ex_task], events = [ex_stopped, ex_running]\<rparr>)
   \<and> Event_status ex_running \<noteq> Stopped
   \<and> event_start ex_codec \<lparr>tasks = [ex_task], events = [ex_stopped, ex_running]\<rparr>
         ''coding'' 3000 3001
       = Inr (CannotMakeNewEvent, \<lparr>tasks = [ex_task], events = [ex_stopped, ex_running]\<rparr>)
   \<and> Event_status (last (events \<lparr>tasks = [ex_task], events = [ex_stopped]\<rparr>)) = Stopped
   \<and> only_last_may_run \<lparr>tasks = [ex_task], events = [ex_stopped]\<rparr>
   \<and> (\<exists>m conn'. event_start ex_codec \<lparr>tasks = [ex_task], events = [ex_stopped]\<rparr>
                      ''coding'' 3000 3001 = Inr (m, conn')
          \<and> only_last_may_run conn' \<and> length (non_stopped conn') \<le> 1)"
proof -
  let ?a = "\<lparr>tasks = [ex_task], events = [ex_stopped, ex_running]\<rparr>"
  let ?b = "\<lparr>tasks = [ex_task], events = [ex_stopped]\<rparr>"
  have a1: "only_last_may_run ?a"
    by (simp add: only_last_may_run_def ex_stopped_def)
  have a2: "\<exists>e \<in> set (events ?a). Event_status e \<noteq> Stopped"
    by (simp add: ex_running_def)
  have a3: "Event_status ex_running \<noteq> Stopped"
    by (simp add: ex_running_def)
  have b1: "Event_status (last (events ?b)) = Stopped"
    by (simp add: ex_stopped_def)
  have b2: "only_last_may_run ?b"
    by (simp add: only_last_may_run_def)
  show ?thesis
    using a1 a2 a3 b1 b2
      event_start_refused_unless_last_stopped [of ex_codec ?a "''coding''" 3000 3001]
      event_start_refused_unless_last_stopped [of ex_codec ?b "''coding''" 3000 3001]
    by simp
qed

section \<open>Writing an event to a dict\<close>

text \<open>
  Claim C10. Whenever \<open>to_dict\<close> returns a dict, the dict maps \<open>work\<close> to 0 whatever the
  event's \<open>work\<close> is, and \<open>id\<close>, \<open>task_id\<close>, the status name and the packed laps to the
  event's values; an Event built from that dict has \<open>work = 0\<close>.
\<close>

theorem to_dict_drops_work:
  assumes "to_dict mp e = Inr d"
  shows "d_work d = Some 0
         \<and> d_id d = Some (Event_id e)
         \<and> d_task_id d = Some (Event_task_id e)
         \<and> d_status d = Some (EventStatus_name (Event_status e))
         \<and> (\<exists>b. pack mp (Event_laps e) = Inr b \<and> d_laps d = Some b)
         \<and> (\<forall>now1 now2 e'. Event_init mp d now1 now2 = Inr e' \<longrightarrow> Event_work e' = 0)"
  using assms
  by (auto simp add: to_dict_def Event_init_def Let_def split: sum.splits)

theorem to_dict_drops_work_witness:
  "to_dict ex_codec ex_stopped
     = Inr \<lparr>d_id = Some ''rs'', d_task_id = Some ''1000'', d_status = Some ''Stopped'',
            d_laps = Some ex_bytes, d_work = Some 0\<rparr>
   \<and> Event_work ex_stopped = 400
   \<and> Event_init ex_codec
        \<lparr>d_id = Some ''rs'', d_task_id = Some ''1000'', d_status = Some ''Stopped'',
         d_laps = Some ex_bytes, d_work = Some 0\<rparr> 5000 5001
      = Inr (ex_stopped\<lparr>Event_work := 0\<rparr>)
   \<and> Event_work (ex_stopped\<lparr>Event_work := 0\<rparr>) = 0"
proof -
  let ?d = "\<lparr>d_id = Some ''rs'', d_task_id = Some ''1000'', d_status = Some ''Stopped'',
             d_laps = Some ex_bytes, d_work = Some 0\<rparr>"
  have h: "to_dict ex_codec ex_stopped = Inr ?d"
    by (simp add: to_dict_def pack_def ex_codec_def ex_stopped_def)
  have i: "Event_init ex_codec ?d 5000 5001 = Inr (ex_stopped\<lparr>Event_work := 0\<rparr>)"
    by (simp add: Event_init_def date_id_def base_repr_def base_repr_loop.simps digits_def
          EventStatus_getitem_def unpack_def ex_codec_def ex_stopped_def ex_bytes_def Let_def)
  show ?thesis
    using h i to_dict_drops_work [OF h] by (simp add: ex_stopped_def)
qed

section \<open>Splitting and stopping without a running event\<close>

lemma get_last_event_Err:
  "events conn = [] \<or> Event_status (last (events conn)) = Stopped
   \<Longrightarrow> get_last_event conn = Err (if events conn = [] then NotFound else NoRunningEvent)"
  by (auto simp add: get_last_event_def db_get_last_event_def)

text \<open>
  Claim C7. When the storage holds no event, or its most recent event is Stopped,
  \<open>event_split\<close> and \<open>event_stop\<close> print the error that \<open>get_last_event\<close> returns and do
  nothing else: the storage they leave is the storage they were given.
\<close>

theorem split_and_stop_need_running_event:
  assumes "events conn = [] \<or> Event_status (last (events conn)) = Stopped"
  shows "\<exists>m. get_last_event conn = Err m
             \<and> event_split conn cfg now = Inr ([Print m], conn)
             \<and> event_stop conn cfg now = Inr ([Print m], conn)"
  using get_last_event_Err [OF assms]
  by (simp add: event_split_def event_stop_def)

theorem split_and_stop_need_running_event_witness:
  "Event_status (last (events \<lparr>tasks = [ex_task], events = [ex_stopped]\<rparr>)) = Stopped
   \<and> event_split \<lparr>tasks = [ex_task], events = [ex_stopped]\<rparr> default_cfg 3000
       = Inr ([Print NoRunningEvent], \<lparr>tasks = [ex_task], events = [ex_stopped]\<rparr>)
   \<and> event_stop \<lparr>tasks = [ex_task], events = [ex_stopped]\<rparr> default_cfg 3000
       = Inr ([Print NoRunningEvent], \<lparr>tasks = [ex_task], events = [ex_stopped]\<rparr>)
   \<and> events \<lparr>tasks = [ex_task], events = []\<rparr> = []
   \<and> event_split \<lparr>tasks = [ex_task], events = []\<rparr> default_cfg 3000
       = Inr ([Print NotFound], \<lparr>tasks = [ex_task], events = []\<rparr>)
   \<and> event_stop \<lparr>tasks = [ex_task], events = []\<rparr> default_cfg 3000
       = Inr ([Print NotFound], \<lparr>tasks = [ex_task], events = []\<rparr>)"
proof -
  let ?a = "\<lparr>tasks = [ex_task], events = [ex_stopped]\<rparr>"
  let ?b = "\<lparr>tasks = [ex_task], events = []\<rparr>"
  have a: "events ?a = [] \<or> Event_status (last (events ?a)) = Stopped"
    by (simp add: ex_stopped_def)
  have b: "events ?b = [] \<or> Event_status (last (events ?b)) = Stopped"
    by simp
  have ga: "get_last_event ?a = Err NoRunningEvent"
    by (simp add: get_last_event_def db_get_last_event_def ex_stopped_def)
  have gb: "get_last_event ?b = Err NotFound"
    by (simp add: get_last_event_def db_get_last_event_def)
  show ?thesis
    using ga gb
      split_and_stop_need_running_event [OF a, of default_cfg 3000]
      split_and_stop_need_running_event [OF b, of default_cfg 3000]
    by (simp add: ex_stopped_def)
qed

section \<open>Stopping an event\<close>

lemma db_update_laps_tasks: "tasks (db_update_laps conn e) = tasks conn"
  by (simp add: db_update_laps_def)

text \<open>
  What \<open>event_stop\<close> does with a running event whose task is in the storage: the test that
  decides the deletion compares \<open>work\<close>, a number of seconds, with \<open>split_min\<close>, a number
  of minutes.
\<close>

lemma event_stop_deletes_iff:
  assumes "get_last_event conn = Ok e0"
    and "Event_stop cfg now e0 = Inr e1"
    and "db_get_task_by_id conn (Event_task_id e1) = Ok t"
  shows "event_stop conn cfg now =
           (if Event_work e1 \<le> split_min cfg
            then Inr ([Print AutoDeleted, RunningStatus e1 t],
                      db_delete_event (db_update_laps conn e1) (Event_id e1))
            else Inr ([RunningStatus e1 t], db_update_laps conn e1))"
proof -
  have "db_get_task_by_id (db_update_laps conn e1) (Event_task_id e1) = Ok t"
    using assms(3) by (simp add: db_get_task_by_id_def db_update_laps_tasks)
  then show ?thesis
    using assms(1,2) by (simp add: event_stop_def show_running_status_def Let_def)
qed

text \<open>
  Claim C1 fails on the code. With \<open>split_min = 5\<close>, an event started at 2000 and stopped
  at 2300 has \<open>work = 300\<close>, which is at most \<open>5 * 60\<close> seconds, and \<open>event_stop\<close> keeps it
  in the storage; an event whose ledger holds a closed Split lap of 200 seconds and that
  is stopped 10 seconds into its next lap has \<open>work = 200\<close>, and is kept as well.
\<close>

theorem event_stop_keeps_event_below_split_min_minutes:
  "event_stop \<lparr>tasks = [ex_task], events = [ex_stopped, ex_running]\<rparr> default_cfg 2300
     = Inr ([RunningStatus
               (ex_running\<lparr>Event_status := Stopped,
                           Event_laps := [(''Split'', 2000, 2300, 300)],
                           Event_work := 300\<rparr>) ex_task],
            \<lparr>tasks = [ex_task],
             events = [ex_stopped,
                       ex_running\<lparr>Event_status := Stopped,
                                  Event_laps := [(''Split'', 2000, 2300, 300)]\<rparr>]\<rparr>)
   \<and> 300 \<le> split_min default_cfg * 60
   \<and> event_stop
        \<lparr>tasks = [ex_task],
         events = [ex_stopped,
                   ex_running\<lparr>Event_laps := [(''Split'', 2000, 2200, 200),
                                               (''Split'', 2200, 0, 0)]\<rparr>]\<rparr>
        default_cfg 2210
     = Inr ([RunningStatus
               (ex_running\<lparr>Event_status := Stopped,
                           Event_laps := [(''Split'', 2000, 2200, 200)],
                           Event_work := 200\<rparr>) ex_task],
            \<lparr>tasks = [ex_task],
             events = [ex_stopped,
                       ex_running\<lparr>Event_status := Stopped,
                                  Event_laps := [(''Split'', 2000, 2200, 200)]\<rparr>]\<rparr>)
   \<and> 200 \<le> split_min default_cfg * 60"
  by (simp add: event_stop_def get_last_event_def db_get_last_event_def Event_stop_def
        close_current_def ledger_close_def lap_open_def lap_discarded_def total_work_def
        db_update_laps_def db_delete_event_def show_running_status_def db_get_task_by_id_def
        default_cfg_def ex_task_def ex_stopped_def ex_running_def Let_def)

section \<open>The ledger under split and resume\<close>

lemma ledger_close_snoc:
  "ledger_close now (pre @ [(kind, start, 0, len)])
     = Inr (pre @ [(kind, start, now, now - start)])"
  by (simp add: ledger_close_def lap_open_def)

lemma close_current_snoc:
  "close_current cfg now (pre @ [(kind, start, 0, len)])
     = Inr (if lap_discarded cfg (kind, start, now, now - start) then pre
            else pre @ [(kind, start, now, now - start)])"
  by (simp add: close_current_def ledger_close_snoc)

lemma one_open_lap_last_snoc:
  "one_open_lap_last laps \<longleftrightarrow>
     (\<exists>pre kind start len. laps = pre @ [(kind, start, 0, len)]
        \<and> list_all (\<lambda>lap. \<not> lap_open lap) pre)"
proof
  assume a: "one_open_lap_last laps"
  then have ne: "laps \<noteq> []" by (simp add: one_open_lap_last_def)
  obtain kind start en len where l: "last laps = (kind, start, en, len)"
    by (cases "last laps") auto
  have "en = 0" using a l by (simp add: one_open_lap_last_def lap_open_def)
  then have "laps = butlast laps @ [(kind, start, 0, len)]"
    using ne l by (metis append_butlast_last_id)
  then show "\<exists>pre kind start len. laps = pre @ [(kind, start, 0, len)]
        \<and> list_all (\<lambda>lap. \<not> lap_open lap) pre"
    using a by (auto simp add: one_open_lap_last_def)
next
  assume "\<exists>pre kind start len. laps = pre @ [(kind, start, 0, len)]
        \<and> list_all (\<lambda>lap. \<not> lap_open lap) pre"
  then show "one_open_lap_last laps"
    by (auto simp add: one_open_lap_last_def lap_open_def)
qed

text \<open>One \<open>split()\<close>: the lap it closes stays only if it is long enough.\<close>

lemma Event_split_keeps_ledger:
  assumes run: "Event_status e = Running"
    and one: "one_open_lap_last (Event_laps e)"
    and short: "no_short_split cfg (Event_laps e)"
    and now: "now \<noteq> 0"
  shows "\<exists>e'. Event_split cfg now e = Inr e' \<and> Event_status e' = Running
              \<and> one_open_lap_last (Event_laps e') \<and> no_short_split cfg (Event_laps e')"
proof -
  obtain pre kind start len where l: "Event_laps e = pre @ [(kind, start, 0, len)]"
    and pre: "list_all (\<lambda>lap. \<not> lap_open lap) pre"
    using one by (auto simp add: one_open_lap_last_snoc)
  let ?closed = "(kind, start, now, now - start)"
  let ?kept = "if lap_discarded cfg ?closed then pre else pre @ [?closed]"
  have s: "Event_split cfg now e = Inr (e\<lparr>Event_laps := ?kept @ [(''Split'', now, 0, 0)]\<rparr>)"
    using run l by (simp add: Event_split_def close_current_snoc ledger_open_def)
  have pre_short: "no_short_split cfg pre"
    using short l by (simp add: no_short_split_def)
  have kept_closed: "list_all (\<lambda>lap. \<not> lap_open lap) ?kept"
    using pre now by (simp add: lap_open_def)
  have kept_short: "no_short_split cfg ?kept"
    using pre_short by (auto simp add: no_short_split_def lap_discarded_def lap_len_def)
  have "one_open_lap_last (?kept @ [(''Split'', now, 0, 0)])"
    using kept_closed by (auto simp add: one_open_lap_last_snoc)
  moreover have "no_short_split cfg (?kept @ [(''Split'', now, 0, 0)])"
    using kept_short by (simp add: no_short_split_def lap_open_def)
  ultimately show ?thesis using s run by simp
qed

lemma split_calls_keep_ledger:
  "Event_status e = Running \<Longrightarrow> one_open_lap_last (Event_laps e)
   \<Longrightarrow> no_short_split cfg (Event_laps e) \<Longrightarrow> \<forall>t \<in> set ts. t \<noteq> 0
   \<Longrightarrow> \<exists>e'. split_calls cfg ts e = Inr e' \<and> Event_status e' = Running
              \<and> one_open_lap_last (Event_laps e') \<and> no_short_split cfg (Event_laps e')"
proof (induction ts arbitrary: e)
  case Nil
  then show ?case by simp
next
  case (Cons t ts)
  then have "t \<noteq> 0" by simp
  then obtain e1 where e1: "Event_split cfg t e = Inr e1" "Event_status e1 = Running"
      "one_open_lap_last (Event_laps e1)" "no_short_split cfg (Event_laps e1)"
    using Event_split_keeps_ledger [OF Cons.prems(1,2,3)] by blast
  have "\<forall>t \<in> set ts. t \<noteq> 0" using Cons.prems(4) by simp
  then show ?case
    using Cons.IH [OF e1(2,3,4)] e1(1) by simp
qed

text \<open>
  Claim C2. Take a Running event whose ledger has exactly one open lap, the last one, and
  no closed Split lap shorter than \<open>split_min\<close> minutes (the ledger of a new event is such
  a ledger), and any sequence of \<open>split()\<close> calls at clock readings other than 0, the value
  that marks a lap as open. Every call returns, and after each call the event is Running
  and its ledger again has exactly one open lap, the last one, and no closed Split lap
  shorter than \<open>split_min * 60\<close> seconds.
\<close>

theorem split_keeps_one_open_lap_and_no_short_split:
  assumes "Event_status e = Running"
    and "one_open_lap_last (Event_laps e)"
    and "no_short_split cfg (Event_laps e)"
    and "\<forall>t \<in> set ts. t \<noteq> 0"
  shows "\<forall>n \<le> length ts. \<exists>e'. split_calls cfg (take n ts) e = Inr e'
            \<and> Event_status e' = Running
            \<and> one_open_lap_last (Event_laps e')
            \<and> no_short_split cfg (Event_laps e')"
proof (intro allI impI)
  fix n
  have "\<forall>t \<in> set (take n ts). t \<noteq> 0"
    using assms(4) by (meson in_set_takeD)
  then show "\<exists>e'. split_calls cfg (take n ts) e = Inr e'
            \<and> Event_status e' = Running
            \<and> one_open_lap_last (Event_laps e')
            \<and> no_short_split cfg (Event_laps e')"
    using split_calls_keep_ledger [OF assms(1,2,3)] by blast
qed

theorem split_keeps_one_open_lap_and_no_short_split_witness:
  "Event_status ex_running = Running
   \<and> one_open_lap_last (Event_laps ex_running)
   \<and> no_short_split default_cfg (Event_laps ex_running)
   \<and> list_all (\<lambda>t. t \<noteq> 0) [2100, 2500, 2600 :: int]
   \<and> split_calls default_cfg [2100, 2500, 2600] ex_running
       = Inr (ex_running\<lparr>Event_laps := [(''Split'', 2100, 2500, 400), (''Split'', 2600, 0, 0)]\<rparr>)
   \<and> (\<exists>e'. split_calls default_cfg (take 3 [2100, 2500, 2600]) ex_running = Inr e'
          \<and> Event_status e' = Running
          \<and> one_open_lap_last (Event_laps e')
          \<and> no_short_split default_cfg (Event_laps e'))"
proof -
  have h1: "Event_status ex_running = Running" by (simp add: ex_running_def)
  have h2: "one_open_lap_last (Event_laps ex_running)"
    by (simp add: ex_running_def one_open_lap_last_def lap_open_def)
  have h3: "no_short_split default_cfg (Event_laps ex_running)"
    by (simp add: ex_running_def no_short_split_def lap_open_def)
  have h4: "\<forall>t \<in> set [2100, 2500, 2600 :: int]. t \<noteq> 0" by simp
  have run: "split_calls default_cfg [2100, 2500, 2600] ex_running
       = Inr (ex_running\<lparr>Event_laps := [(''Split'', 2100, 2500, 400), (''Split'', 2600, 0, 0)]\<rparr>)"
    by (simp add: Event_split_def close_current_def ledger_close_def ledger_open_def
          lap_open_def lap_discarded_def default_cfg_def ex_running_def)
  have h4': "list_all (\<lambda>t. t \<noteq> 0) [2100, 2500, 2600 :: int]" by simp
  have "3 \<le> length [2100, 2500, 2600 :: int] \<longrightarrow>
          (\<exists>e'. split_calls default_cfg (take 3 [2100, 2500, 2600]) ex_running = Inr e'
             \<and> Event_status e' = Running
             \<and> one_open_lap_last (Event_laps e')
             \<and> no_short_split default_cfg (Event_laps e'))"
    using split_keeps_one_open_lap_and_no_short_split [OF h1 h2 h3 h4] by blast
  then have c: "\<exists>e'. split_calls default_cfg (take 3 [2100, 2500, 2600]) ex_running = Inr e'
             \<and> Event_status e' = Running
             \<and> one_open_lap_last (Event_laps e')
             \<and> no_short_split default_cfg (Event_laps e')"
    by (rule mp) simp
  show ?thesis
    using h1 h2 h3 h4' run c by blast
qed

lemma total_work_append: "total_work (xs @ ys) = total_work xs + total_work ys"
  by (simp add: total_work_def)

text \<open>
  Claim C3. \<open>resume()\<close> at time \<open>t\<close> on a Pausing event whose open lap is the Pause lap
  opened at \<open>p\<close> returns a Running event whose ledger ends with the open Split lap
  \<open>(Split, t, 0, 0)\<close>. With \<open>d = t - p\<close>, the ledger before that lap is the old one without
  the Pause lap when \<open>d < pause_min * 60\<close> or \<open>d > pause_max * 60\<close>, and the old one with the
  Pause lap closed as \<open>(Pause, p, t, d)\<close> otherwise; so the closed Pause lap is absent from
  the ledger exactly in the first case. The work of the ledger is that of the laps before
  the pause in both cases.
\<close>

theorem resume_drops_short_and_long_pause:
  assumes "Event_status e = Pausing"
    and "Event_laps e = pre @ [(LapName_name Pause, p, 0, 0)]"
  shows "\<exists>e'. Event_resume cfg t e = Inr e'
           \<and> Event_status e' = Running
           \<and> Event_laps e' =
               pre @ (if t - p < pause_min cfg * 60 \<or> t - p > pause_max cfg * 60 then []
                      else [(LapName_name Pause, p, t, t - p)])
                   @ [(LapName_name Split, t, 0, 0)]
           \<and> total_work (Event_laps e') = total_work pre
           \<and> ((LapName_name Pause, p, t, t - p) \<notin> set pre \<longrightarrow>
                ((LapName_name Pause, p, t, t - p) \<notin> set (Event_laps e')
                  \<longleftrightarrow> t - p < pause_min cfg * 60 \<or> t - p > pause_max cfg * 60))"
  using assms
  by (auto simp add: Event_resume_def close_current_snoc ledger_open_def lap_discarded_def
        total_work_append total_work_def lap_open_def)

theorem resume_drops_short_and_long_pause_witness:
  "Event_status (ex_running\<lparr>Event_status := Pausing,
                            Event_laps := [(''Split'', 2000, 2400, 400)]
                                          @ [(LapName_name Pause, 2400, 0, 0)]\<rparr>) = Pausing
   \<and> Event_resume default_cfg 2430
        (ex_running\<lparr>Event_status := Pausing,
                    Event_laps := [(''Split'', 2000, 2400, 400)]
                                  @ [(LapName_name Pause, 2400, 0, 0)]\<rparr>)
      = Inr (ex_running\<lparr>Event_status := Running,
                        Event_laps := [(''Split'', 2000, 2400, 400),
                                       (''Split'', 2430, 0, 0)]\<rparr>)
   \<and> Event_resume default_cfg 3000
        (ex_running\<lparr>Event_status := Pausing,
                    Event_laps := [(''Split'', 2000, 2400, 400)]
                                  @ [(LapName_name Pause, 2400, 0, 0)]\<rparr>)
      = Inr (ex_running\<lparr>Event_status := Running,
                        Event_laps := [(''Split'', 2000, 2400, 400),
                                       (''Pause'', 2400, 3000, 600),
                                       (''Split'', 3000, 0, 0)]\<rparr>)
   \<and> total_work [(''Split'', 2000, 2400, 400), (''Pause'', 2400, 3000, 600),
                  (''Split'', 3000, 0, 0)] = 400"
proof -
  let ?e = "ex_running\<lparr>Event_status := Pausing,
                        Event_laps := [(''Split'', 2000, 2400, 400)]
                                      @ [(LapName_name Pause, 2400, 0, 0)]\<rparr>"
  have h1: "Event_status ?e = Pausing" by simp
  have h2: "Event_laps ?e = [(''Split'', 2000, 2400, 400)] @ [(LapName_name Pause, 2400, 0, 0)]"
    by simp
  have e1: "Event_resume default_cfg 2430 ?e
      = Inr (ex_running\<lparr>Event_status := Running,
                        Event_laps := [(''Split'', 2000, 2400, 400),
                                       (''Split'', 2430, 0, 0)]\<rparr>)"
    by (simp add: Event_resume_def close_current_def ledger_close_def ledger_open_def
          lap_open_def lap_discarded_def default_cfg_def ex_running_def)
  have e2: "Event_resume default_cfg 3000 ?e
      = Inr (ex_running\<lparr>Event_status := Running,
                        Event_laps := [(''Split'', 2000, 2400, 400),
                                       (''Pause'', 2400, 3000, 600),
                                       (''Split'', 3000, 0, 0)]\<rparr>)"
    by (simp add: Event_resume_def close_current_def ledger_close_def ledger_open_def
          lap_open_def lap_discarded_def default_cfg_def ex_running_def)
  have t: "total_work [(''Split'', 2000, 2400, 400), (''Pause'', 2400, 3000, 600),
                  (''Split'', 3000, 0, 0)] = 400"
    by (simp add: total_work_def lap_open_def)
  show ?thesis
    using h1 e1 e2 t
      resume_drops_short_and_long_pause [OF h1 h2, of default_cfg 2430]
      resume_drops_short_and_long_pause [OF h1 h2, of default_cfg 3000]
    by blast
qed

end
